theory Spec2Isabelle
  imports Main
begin

section \<open>The business-search form: criteria state, submission and download\<close>

text \<open>
  The repository holds two versions of the React component \<open>BusinessScraperForm\<close>:
  \<^item> \<open>src/components/BusinessScraperForm.tsx\<close>: French keys, thirteen fields, the body of
    the request is a multipart \<open>FormData\<close> built from the filtered entries of the state;
  \<^item> the second file (\<open>unnamed/part_000\<close>): English keys, ten fields, the body is
    \<open>JSON.stringify(formData)\<close>.
  Definitions of the first file keep the source's names; those of the second file carry
  the suffix \<open>_json\<close>. \<open>handleInputChange\<close>, \<open>downloadCSV\<close> and the part of
  \<open>handleSubmit\<close> after the request are the same text in both files and are modelled once.
\<close>

subsection \<open>Values and objects\<close>

text \<open>
  A field of the state holds a string or (for the checkbox of the first file) a boolean.
  A JavaScript object is an association list in insertion order, which is the order
  \<open>Object.entries\<close> and \<open>JSON.stringify\<close> enumerate.
\<close>

datatype fval = Str string | Bool bool

type_synonym obj = "(string \<times> fval) list"

fun get :: "obj \<Rightarrow> string \<Rightarrow> fval option" where
  "get [] k = None"
| "get ((k', v) # kvs) k = (if k' = k then Some v else get kvs k)"

definition keys :: "obj \<Rightarrow> string list" where
  "keys ob = map fst ob"

text \<open>
  Storing a property: an existing key keeps its position and takes the new value, a new
  key is appended. This is what \<open>{...prev, [field]: value}\<close> does to the copy of
  \<open>prev\<close>.
\<close>

fun put :: "string \<Rightarrow> fval \<Rightarrow> obj \<Rightarrow> obj" where
  "put k v [] = [(k, v)]"
| "put k v ((k', v') # kvs) = (if k' = k then (k, v) # kvs else (k', v') # put k v kvs)"

text \<open>\<open>value.toString()\<close> on a string or a boolean.\<close>

fun toString :: "fval \<Rightarrow> string" where
  "toString (Str s) = s"
| "toString (Bool b) = (if b then ''true'' else ''false'')"

subsection \<open>Initial state of the criteria\<close>

text \<open>The argument of \<open>useState<FormData>\<close> in \<open>src/components/BusinessScraperForm.tsx\<close>.\<close>

definition initialFormData :: obj where
  "initialFormData =
    [(''region'', Str ''''),
     (''ville'', Str ''''),
     (''codePostal'', Str ''''),
     (''secteur'', Str ''''),
     (''nombreMax'', Str ''100''),
     (''codeNaf'', Str ''''),
     (''tailleEntreprise'', Str ''''),
     (''formeJuridique'', Str ''''),
     (''caMinimum'', Str ''''),
     (''caMaximum'', Str ''''),
     (''anneeCreation'', Str ''''),
     (''statut'', Str ''active''),
     (''exclureFranchises'', Bool False)]"

text \<open>The argument of \<open>useState<FormData>\<close> in the second file.\<close>

definition initialFormData_json :: obj where
  "initialFormData_json =
    [(''location'', Str ''''),
     (''searchTerms'', Str ''''),
     (''maxResults'', Str ''100''),
     (''fiberEligibility'', Str ''already-fiber''),
     (''nafCodes'', Str ''''),
     (''legalForms'', Str ''''),
     (''employeeSize'', Str ''all''),
     (''creationYearMin'', Str ''''),
     (''creationYearMax'', Str ''''),
     (''excludeFranchises'', Str ''no'')]"

subsection \<open>Editing a field\<close>

text \<open>
  \<open>handleInputChange(field, value)\<close> is \<open>setFormData(prev => ({...prev, [field]: value}))\<close>,
  the same in both files.
\<close>

definition handleInputChange :: "string \<Rightarrow> fval \<Rightarrow> obj \<Rightarrow> obj" where
  "handleInputChange field v prev = put field v prev"

subsection \<open>Serializing the criteria\<close>

text \<open>
  First file, the loop over \<open>Object.entries(formData)\<close>: an entry is appended to the
  multipart body when its value is neither the empty string nor \<open>false\<close>.
\<close>

definition appendEntry :: "(string \<times> string) list \<Rightarrow> string \<times> fval \<Rightarrow> (string \<times> string) list" where
  "appendEntry acc kv =
     (case kv of (key, v) \<Rightarrow>
        if v \<noteq> Str [] \<and> v \<noteq> Bool False then acc @ [(key, toString v)] else acc)"

definition submitData :: "obj \<Rightarrow> (string \<times> string) list" where
  "submitData fd = foldl appendEntry [] fd"

text \<open>
  Second file: \<open>JSON.stringify(formData)\<close>. Every own property whose value is a string or
  a boolean becomes a member of the JSON object, in order; the document is kept as its
  list of members.
\<close>

definition stringify :: "obj \<Rightarrow> (string \<times> fval) list" where
  "stringify fd = map (\<lambda>kv. (fst kv, snd kv)) fd"

datatype body = Multipart "(string \<times> string) list" | Json "(string \<times> fval) list"

record request =
  url :: string
  httpMethod :: string
  headers :: "(string \<times> string) list"
  body :: body

definition scrapeRequest :: "obj \<Rightarrow> request" where
  "scrapeRequest fd =
     \<lparr>url = ''/scrape'', httpMethod = ''POST'', headers = [], body = Multipart (submitData fd)\<rparr>"

definition scrapeRequest_json :: "obj \<Rightarrow> request" where
  "scrapeRequest_json fd =
     \<lparr>url = ''/scrape'', httpMethod = ''POST'',
      headers = [(''Content-Type'', ''application/json'')],
      body = Json (stringify fd)\<rparr>"

text \<open>The names of the fields present in a body.\<close>

fun bodyKeys :: "body \<Rightarrow> string list" where
  "bodyKeys (Multipart es) = map fst es"
| "bodyKeys (Json ms) = map fst ms"

subsection \<open>The date in the file name\<close>

text \<open>
  \<open>new Date()\<close> read in UTC, which is what \<open>toISOString\<close> prints:
  \<open>YYYY-MM-DDTHH:mm:ss.sssZ\<close>, and \<open>+YYYYYY-...\<close> for a year above 9999.
\<close>

record date =
  year :: nat
  month :: nat
  day :: nat
  hours :: nat
  minutes :: nat
  seconds :: nat
  millis :: nat

definition digit :: "nat \<Rightarrow> char" where
  "digit n = char_of (48 + n mod 10)"

text \<open>The last \<open>w\<close> decimal digits of \<open>n\<close>, zero padded.\<close>

primrec pad :: "nat \<Rightarrow> nat \<Rightarrow> string" where
  "pad 0 n = []"
| "pad (Suc w) n = pad w (n div 10) @ [digit n]"

definition toISOString :: "date \<Rightarrow> string" where
  "toISOString d =
     (if year d \<le> 9999 then pad 4 (year d) else ''+'' @ pad 6 (year d))
     @ ''-'' @ pad 2 (month d) @ ''-'' @ pad 2 (day d)
     @ ''T'' @ pad 2 (hours d) @ '':'' @ pad 2 (minutes d) @ '':'' @ pad 2 (seconds d)
     @ ''.'' @ pad 3 (millis d) @ ''Z''"

text \<open>\<open>s.split(c)\<close> for a separator of one character; the result is never empty.\<close>

fun split :: "char \<Rightarrow> string \<Rightarrow> string list" where
  "split c [] = [] # []"
| "split c (x # xs) =
     (if x = c then [] # split c xs
      else (case split c xs of [] \<Rightarrow> [x] # [] | p # ps \<Rightarrow> (x # p) # ps))"

text \<open>Indexing an array at 0 inside a template literal: a missing element prints as \<open>undefined\<close>.\<close>

fun first :: "string list \<Rightarrow> string" where
  "first [] = ''undefined''"
| "first (p # ps) = p"

definition filename :: "date \<Rightarrow> string" where
  "filename now = ''entreprises_'' @ first (split (CHR ''T'') (toISOString now)) @ ''.csv''"

text \<open>A calendar date as \<open>new Date()\<close> can give it while the year has four digits.\<close>

definition wellFormed :: "date \<Rightarrow> bool" where
  "wellFormed d \<longleftrightarrow> year d \<le> 9999 \<and> 1 \<le> month d \<and> month d \<le> 12 \<and> 1 \<le> day d \<and> day d \<le> 31"

text \<open>The shape \<open>entreprises_YYYY-MM-DD.csv\<close>: four, two and two decimal digits.\<close>

definition isDigit :: "char \<Rightarrow> bool" where
  "isDigit c \<longleftrightarrow> 48 \<le> (of_char c :: nat) \<and> (of_char c :: nat) \<le> 57"

fun isoDay :: "string \<Rightarrow> bool" where
  "isoDay [y1, y2, y3, y4, s1, m1, m2, s2, d1, d2] \<longleftrightarrow>
     isDigit y1 \<and> isDigit y2 \<and> isDigit y3 \<and> isDigit y4 \<and> s1 = CHR ''-'' \<and>
     isDigit m1 \<and> isDigit m2 \<and> s2 = CHR ''-'' \<and> isDigit d1 \<and> isDigit d2"
| "isoDay _ \<longleftrightarrow> False"

definition matchesPattern :: "string \<Rightarrow> bool" where
  "matchesPattern f \<longleftrightarrow>
     length f = 26 \<and> take 12 f = ''entreprises_'' \<and> isoDay (take 10 (drop 12 f)) \<and>
     drop 22 f = ''.csv''"

subsection \<open>Bytes and text\<close>

text \<open>
  \<open>response.text()\<close> does not hand over the bytes of the body: it decodes them as UTF-8,
  and \<open>new Blob([data])\<close> encodes the string as UTF-8 again. Both are the platform's
  (Encoding Standard: a leading byte-order mark is dropped, every ill-formed sequence
  becomes U+FFFD and ends before the byte that does not fit). A byte is a number below
  256; a string of the response is the list of its code points.
\<close>

type_synonym byte = nat
type_synonym codepoint = nat
type_synonym ustring = "codepoint list"

definition inRange :: "nat \<Rightarrow> nat \<Rightarrow> nat \<Rightarrow> bool" where
  "inRange lo hi b \<longleftrightarrow> lo \<le> b \<and> b \<le> hi"

text \<open>
  The lead byte of a sequence: how many bytes follow, the bounds of the first of them, and
  the bits of the code point it carries.
\<close>

definition bytesNeeded :: "byte \<Rightarrow> nat" where
  "bytesNeeded b =
     (if inRange 0xC2 0xDF b then 1
      else if inRange 0xE0 0xEF b then 2
      else if inRange 0xF0 0xF4 b then 3
      else 0)"

definition lowerBoundary :: "byte \<Rightarrow> byte" where
  "lowerBoundary b = (if b = 0xE0 then 0xA0 else if b = 0xF0 then 0x90 else 0x80)"

definition upperBoundary :: "byte \<Rightarrow> byte" where
  "upperBoundary b = (if b = 0xED then 0x9F else if b = 0xF4 then 0x8F else 0xBF)"

definition leadBits :: "byte \<Rightarrow> nat" where
  "leadBits b = (if b < 0xE0 then b - 0xC0 else if b < 0xF0 then b - 0xE0 else b - 0xF0)"

text \<open>
  How many of the \<open>n\<close> bytes a lead byte needs are there and fit: the first within the
  bounds of the lead byte, the others within 80..BF.
\<close>

fun accepted :: "byte \<Rightarrow> byte \<Rightarrow> nat \<Rightarrow> byte list \<Rightarrow> nat" where
  "accepted lo hi 0 bs = 0"
| "accepted lo hi (Suc n) [] = 0"
| "accepted lo hi (Suc n) (c # cs) =
     (if inRange lo hi c then Suc (accepted 0x80 0xBF n cs) else 0)"

text \<open>
  The first code point of \<open>b # bs\<close>, the number of bytes of \<open>bs\<close> used for it, and whether
  the sequence was well formed.
\<close>

definition utf8Head :: "byte \<Rightarrow> byte list \<Rightarrow> codepoint \<times> nat \<times> bool" where
  "utf8Head b bs =
     (if b \<le> 0x7F then (b, 0, True)
      else if bytesNeeded b = 0 then (0xFFFD, 0, False)
      else (let k = accepted (lowerBoundary b) (upperBoundary b) (bytesNeeded b) bs
            in if k = bytesNeeded b
               then (foldl (\<lambda>a c. a * 64 + (c - 0x80)) (leadBits b) (take k bs), k, True)
               else (0xFFFD, k, False)))"

fun utf8Decode :: "byte list \<Rightarrow> ustring" where
  "utf8Decode [] = []"
| "utf8Decode (b # bs) = (case utf8Head b bs of (cp, k, good) \<Rightarrow> cp # utf8Decode (drop k bs))"

fun wellFormedUtf8 :: "byte list \<Rightarrow> bool" where
  "wellFormedUtf8 [] \<longleftrightarrow> True"
| "wellFormedUtf8 (b # bs) \<longleftrightarrow>
     (case utf8Head b bs of (cp, k, good) \<Rightarrow> good \<and> wellFormedUtf8 (drop k bs))"

text \<open>\<open>response.text()\<close> on a body that could be read.\<close>

definition hasBOM :: "byte list \<Rightarrow> bool" where
  "hasBOM bs \<longleftrightarrow> take 3 bs = [0xEF, 0xBB, 0xBF]"

definition responseText :: "byte list \<Rightarrow> ustring" where
  "responseText bs = utf8Decode (if hasBOM bs then drop 3 bs else bs)"

text \<open>
  The bytes of a blob made of strings: a lone surrogate is replaced by U+FFFD, every code
  point is written in one to four bytes.
\<close>

definition utf8EncodeCp :: "codepoint \<Rightarrow> byte list" where
  "utf8EncodeCp c =
     (let cp = (if inRange 0xD800 0xDFFF c then 0xFFFD else c)
      in if cp < 0x80 then [cp]
         else if cp < 0x800 then [0xC0 + cp div 64, 0x80 + cp mod 64]
         else if cp < 0x10000
         then [0xE0 + cp div 4096, 0x80 + cp div 64 mod 64, 0x80 + cp mod 64]
         else [0xF0 + cp div 262144, 0x80 + cp div 4096 mod 64, 0x80 + cp div 64 mod 64,
               0x80 + cp mod 64])"

definition utf8Encode :: "ustring \<Rightarrow> byte list" where
  "utf8Encode t = concat (map utf8EncodeCp t)"

subsection \<open>Effects\<close>

text \<open>
  What a promise rejects with or a \<open>throw\<close> raises: an \<open>Error\<close> with its message, or
  the \<open>TypeError\<close> of a failed \<open>fetch\<close>.
\<close>

datatype thrown = Error string | TypeError string

record blob =
  parts :: "ustring list"
  blobType :: string

definition blobBytes :: "blob \<Rightarrow> byte list" where
  "blobBytes b = utf8Encode (concat (parts b))"

text \<open>
  The anchor element \<open>downloadCSV\<close> creates: \<open>href\<close> is the object URL of the blob,
  kept as the blob itself.
\<close>

record link =
  href :: blob
  download :: string

record toastMsg =
  title :: string
  description :: string
  className :: "string option"
  variant :: "string option"

datatype effect =
    Fetch request
  | AppendChild link
  | Click link
  | RemoveChild link
  | ConsoleError string thrown
  | Toast toastMsg

definition downloadCSV :: "ustring \<Rightarrow> string \<Rightarrow> effect list" where
  "downloadCSV data fname =
     (let b = \<lparr>parts = [data], blobType = ''text/csv;charset=utf-8;''\<rparr>;
          l = \<lparr>href = b, download = fname\<rparr>
      in [AppendChild l, Click l, RemoveChild l])"

text \<open>The files a list of effects saves: name and bytes of each clicked download link.\<close>

fun downloads :: "effect list \<Rightarrow> (string \<times> byte list) list" where
  "downloads [] = []"
| "downloads (Click l # es) = (download l, blobBytes (href l)) # downloads es"
| "downloads (_ # es) = downloads es"

fun toasts :: "effect list \<Rightarrow> toastMsg list" where
  "toasts [] = []"
| "toasts (Toast t # es) = t # toasts es"
| "toasts (_ # es) = toasts es"

fun fetches :: "effect list \<Rightarrow> request list" where
  "fetches [] = []"
| "fetches (Fetch r # es) = r # fetches es"
| "fetches (_ # es) = fetches es"

text \<open>
  The two notifications of \<open>handleSubmit\<close>. The accented letters of the source are the
  characters 233 and 232.
\<close>

definition successToast :: "string \<Rightarrow> toastMsg" where
  "successToast fname =
     \<lparr>title = ''Recherche termin'' @ [char_of (233::nat)] @ ''e'',
      description = ''Les donn'' @ [char_of (233::nat)] @ ''es ont '' @ [char_of (233::nat)] @ ''t''
        @ [char_of (233::nat)] @ '' t'' @ [char_of (233::nat)] @ ''l'' @ [char_of (233::nat)]
        @ ''charg'' @ [char_of (233::nat)] @ ''es avec succ'' @ [char_of (232::nat)] @ ''s (''
        @ fname @ '')'',
      className = Some ''bg-success text-success-foreground'',
      variant = None\<rparr>"

definition errorToast :: toastMsg where
  "errorToast =
     \<lparr>title = ''Erreur'',
      description = ''Une erreur est survenue lors de la recherche. Veuillez r''
        @ [char_of (233::nat)] @ ''essayer.'',
      className = None,
      variant = Some ''destructive''\<rparr>"

subsection \<open>The response\<close>

text \<open>
  How the request settles: \<open>fetch\<close> rejects, or it resolves with a response that has a
  status and a body: the bytes of the body, or the error \<open>text()\<close> rejects with when they
  cannot be read.
\<close>

datatype bodyRead = Bytes "byte list" | Unreadable thrown

datatype outcome = Rejected thrown | Response nat bodyRead

text \<open>\<open>response.ok\<close>: the status is in the range 200 to 299.\<close>

definition ok :: "nat \<Rightarrow> bool" where
  "ok status \<longleftrightarrow> 200 \<le> status \<and> status \<le> 299"

text \<open>A number in a template literal: decimal, no leading zero.\<close>

fun showNat :: "nat \<Rightarrow> string" where
  "showNat n = (if n < 10 then [digit n] else showNat (n div 10) @ [digit n])"

declare showNat.simps [simp del]

subsection \<open>Submitting\<close>

text \<open>
  The state of the component: the two \<open>useState\<close> cells, the requests in flight, and the
  effects performed so far.
\<close>

record form =
  isLoading :: bool
  formData :: obj
  pending :: "request list"
  effects :: "effect list"

text \<open>
  \<open>handleSubmit\<close> up to \<open>await fetch(...)\<close>: the busy flag is set, the request is built
  from the current criteria and sent.
\<close>

definition submitStart :: "(obj \<Rightarrow> request) \<Rightarrow> form \<Rightarrow> form" where
  "submitStart mk s =
     (let req = mk (formData s)
      in s\<lparr>isLoading := True, pending := pending s @ [req], effects := effects s @ [Fetch req]\<rparr>)"

text \<open>
  The rest of the \<open>try\<close> block, once the request has settled: the effects performed and
  the exception that leaves the block, if any.
\<close>

definition tryBlock :: "date \<Rightarrow> outcome \<Rightarrow> effect list \<times> (thrown + unit)" where
  "tryBlock now out =
     (case out of
        Rejected e \<Rightarrow> ([], Inl e)
      | Response status txt \<Rightarrow>
          if \<not> ok status then ([], Inl (Error (''Erreur HTTP: '' @ showNat status)))
          else (case txt of
                  Unreadable e \<Rightarrow> ([], Inl e)
                | Bytes bs \<Rightarrow>
                    (let csvData = responseText bs
                     in (downloadCSV csvData (filename now)
                           @ [Toast (successToast (filename now))],
                         Inr ()))))"

text \<open>The \<open>catch\<close> block.\<close>

definition catchBlock :: "thrown \<Rightarrow> effect list" where
  "catchBlock e = [ConsoleError ''Erreur lors de la recherche:'' e, Toast errorToast]"

text \<open>\<open>try\<close>, \<open>catch\<close> and \<open>finally\<close> after the request has settled.\<close>

definition submitSettle :: "date \<Rightarrow> outcome \<Rightarrow> form \<Rightarrow> form" where
  "submitSettle now out s =
     (case tryBlock now out of
        (es, r) \<Rightarrow>
          s\<lparr>isLoading := False,
            pending := tl (pending s),
            effects := effects s @ es @ (case r of Inl e \<Rightarrow> catchBlock e | Inr u \<Rightarrow> [])\<rparr>)"

text \<open>One whole run of \<open>handleSubmit\<close>, for each file.\<close>

definition handleSubmit :: "date \<Rightarrow> outcome \<Rightarrow> form \<Rightarrow> form" where
  "handleSubmit now out s = submitSettle now out (submitStart scrapeRequest s)"

definition handleSubmit_json :: "date \<Rightarrow> outcome \<Rightarrow> form \<Rightarrow> form" where
  "handleSubmit_json now out s = submitSettle now out (submitStart scrapeRequest_json s)"

text \<open>The component as first rendered.\<close>

definition initialForm :: form where
  "initialForm = \<lparr>isLoading = False, formData = initialFormData, pending = [], effects = []\<rparr>"

definition initialForm_json :: form where
  "initialForm_json =
     \<lparr>isLoading = False, formData = initialFormData_json, pending = [], effects = []\<rparr>"

subsection \<open>The widgets\<close>

text \<open>
  The value of an \<open><input type="number">\<close> is the empty string or a valid floating-point
  number: an optional minus sign, digits with an optional fraction or a fraction alone,
  and an optional exponent.
\<close>

definition dropSign :: "bool \<Rightarrow> string \<Rightarrow> string" where
  "dropSign withPlus s =
     (case s of
        [] \<Rightarrow> []
      | c # r \<Rightarrow> if c = CHR ''-'' \<or> (withPlus \<and> c = CHR ''+'') then r else s)"

definition validExponent :: "string \<Rightarrow> bool" where
  "validExponent s =
     (case s of
        [] \<Rightarrow> True
      | c # r \<Rightarrow> (c = CHR ''e'' \<or> c = CHR ''E'') \<and> dropSign True r \<noteq> [] \<and>
                 list_all isDigit (dropSign True r))"

definition validFloat :: "string \<Rightarrow> bool" where
  "validFloat s =
     (let u = dropSign False s;
          ip = takeWhile isDigit u;
          r = dropWhile isDigit u
      in case r of
           [] \<Rightarrow> ip \<noteq> []
         | c # t \<Rightarrow>
             if c = CHR ''.''
             then takeWhile isDigit t \<noteq> [] \<and> validExponent (dropWhile isDigit t)
             else ip \<noteq> [] \<and> validExponent r)"

definition numberValue :: "string \<Rightarrow> bool" where
  "numberValue s \<longleftrightarrow> s = [] \<or> validFloat s"

text \<open>
  Which \<open>handleInputChange(field, value)\<close> calls the controls of the first file can make:
  text inputs pass any string, number inputs a number value, the select and the radio
  group one of their items, the checkbox a boolean.
\<close>

definition offers :: "string \<Rightarrow> fval \<Rightarrow> bool" where
  "offers field v =
     (case v of
        Str s \<Rightarrow>
          if field \<in> set [''region'', ''ville'', ''codePostal'', ''secteur'', ''codeNaf'',
                          ''formeJuridique'']
          then True
          else if field \<in> set [''caMinimum'', ''caMaximum'', ''nombreMax'', ''anneeCreation'']
          then numberValue s
          else if field = ''tailleEntreprise'' then s \<in> set [''TPE'', ''PE'', ''ME'', ''GE'']
          else if field = ''statut'' then s \<in> set [''active'', ''all'']
          else False
      | Bool b \<Rightarrow> field = ''exclureFranchises'')"

text \<open>The same for the controls of the second file, where every value is a string.\<close>

definition offers_json :: "string \<Rightarrow> fval \<Rightarrow> bool" where
  "offers_json field v =
     (case v of
        Str s \<Rightarrow>
          if field \<in> set [''location'', ''searchTerms'', ''nafCodes'', ''legalForms'']
          then True
          else if field \<in> set [''creationYearMin'', ''creationYearMax'']
          then numberValue s
          else if field = ''maxResults'' then s \<in> set [''50'', ''100'', ''200'', ''500'']
          else if field = ''fiberEligibility''
          then s \<in> set [''no-fiber'', ''planned-fiber'', ''recent-fiber'', ''already-fiber'']
          else if field = ''employeeSize''
          then s \<in> set [''all'', ''micro'', ''small'', ''medium'', ''large'']
          else if field = ''excludeFranchises'' then s \<in> set [''no'', ''yes'']
          else False
      | Bool b \<Rightarrow> False)"

subsection \<open>The component as a machine\<close>

text \<open>
  What happens to a rendered form: a control changes a field, the submit button is
  clicked, or the request in flight settles (at some time, in some way).
\<close>

datatype event = Change string fval | SubmitClick | Settle date outcome

text \<open>The button is rendered with \<open>disabled={isLoading}\<close>.\<close>

definition submitDisabled :: "form \<Rightarrow> bool" where
  "submitDisabled s = isLoading s"

text \<open>
  The form is submitted through its submit button only (pressing Enter in a field
  activates that same button). A click on the disabled button submits nothing; otherwise
  the form's \<open>onSubmit\<close> runs \<open>handleSubmit\<close> up to its first \<open>await\<close>, and React
  renders the new state before the next event. \<open>handleSubmit\<close> itself does not test the
  busy flag.
\<close>

definition dispatch :: "(obj \<Rightarrow> request) \<Rightarrow> event \<Rightarrow> form \<Rightarrow> form" where
  "dispatch mk ev s =
     (case ev of
        Change field v \<Rightarrow> s\<lparr>formData := handleInputChange field v (formData s)\<rparr>
      | SubmitClick \<Rightarrow> if submitDisabled s then s else submitStart mk s
      | Settle now out \<Rightarrow> submitSettle now out s)"

text \<open>
  An event can occur: the control offers the value, a request is there to settle. The
  browser's check of the \<open>min\<close> and \<open>max\<close> attributes of the year inputs before a
  submission is not part of the component and is left out, so the machine allows every
  submission the browser allows.
\<close>

definition occurs :: "(string \<Rightarrow> fval \<Rightarrow> bool) \<Rightarrow> event \<Rightarrow> form \<Rightarrow> bool" where
  "occurs off ev s =
     (case ev of
        Change field v \<Rightarrow> off field v
      | SubmitClick \<Rightarrow> True
      | Settle now out \<Rightarrow> pending s \<noteq> [])"

fun run :: "(string \<Rightarrow> fval \<Rightarrow> bool) \<Rightarrow> (obj \<Rightarrow> request) \<Rightarrow> event list \<Rightarrow> form \<Rightarrow> form option" where
  "run off mk [] s = Some s"
| "run off mk (ev # evs) s = (if occurs off ev s then run off mk evs (dispatch mk ev s) else None)"

definition runForm :: "event list \<Rightarrow> form option" where
  "runForm evs = run offers scrapeRequest evs initialForm"

definition runForm_json :: "event list \<Rightarrow> form option" where
  "runForm_json evs = run offers_json scrapeRequest_json evs initialForm_json"

text \<open>
  The state between events: at most one request is in flight, and the busy flag is set
  exactly while one is.
\<close>

definition oneRequest :: "form \<Rightarrow> bool" where
  "oneRequest s \<longleftrightarrow> length (pending s) \<le> 1 \<and> (isLoading s \<longleftrightarrow> pending s \<noteq> [])"

subsection \<open>Reading a field as a number\<close>

text \<open>
  The number a non-empty string of decimal digits denotes. The component never reads a
  field as a number; this is used to state properties of the bounds it sends.
\<close>

fun decimalFrom :: "nat \<Rightarrow> string \<Rightarrow> nat option" where
  "decimalFrom a [] = Some a"
| "decimalFrom a (c # cs) =
     (if isDigit c then decimalFrom (10 * a + (of_char c - 48)) cs else None)"

definition decimal :: "string \<Rightarrow> nat option" where
  "decimal s = (if s = [] then None else decimalFrom 0 s)"

definition allowedMaxResults :: "string list" where
  "allowedMaxResults = [''50'', ''100'', ''200'', ''500'']"

text \<open>The value a body sends for a field.\<close>

fun sentValue :: "body \<Rightarrow> string \<Rightarrow> fval option" where
  "sentValue (Json ms) k = get ms k"
| "sentValue (Multipart es) k = map_option Str (map_of es k)"

text \<open>
  The state between events of the second file: the criteria hold, and every request sent
  so far carries, a maximum of results that is one of the four items of the select.
\<close>

definition maxResultsAllowed :: "form \<Rightarrow> bool" where
  "maxResultsAllowed s \<longleftrightarrow>
     (\<exists>v. get (formData s) ''maxResults'' = Some (Str v) \<and> v \<in> set allowedMaxResults) \<and>
     (\<forall>r \<in> set (fetches (effects s)).
        \<exists>v. sentValue (body r) ''maxResults'' = Some (Str v) \<and> v \<in> set allowedMaxResults)"

section \<open>Properties\<close>

subsection \<open>Objects\<close>

lemma get_put_same: "get (put k v ob) k = Some v"
  by (induction ob) auto

lemma get_put_other: "k' \<noteq> k \<Longrightarrow> get (put k v ob) k' = get ob k'"
  by (induction ob) auto

lemma keys_put_present: "k \<in> set (keys ob) \<Longrightarrow> keys (put k v ob) = keys ob"
  by (induction ob) (force simp: keys_def)+

lemma keys_put_absent: "k \<notin> set (keys ob) \<Longrightarrow> keys (put k v ob) = keys ob @ [k]"
  by (induction ob) (force simp: keys_def)+

subsection \<open>Digits and the date\<close>

lemma of_char_digit: "of_char (digit n) = (48 + n mod 10 :: nat)"
  by (simp add: digit_def)

lemma isDigit_digit: "isDigit (digit n)"
  by (simp add: isDigit_def of_char_digit)

lemma digit_not_T: "digit n \<noteq> CHR ''T''"
proof
  assume "digit n = CHR ''T''"
  then have "of_char (digit n) = (of_char (CHR ''T'') :: nat)" by simp
  then show False by (simp add: of_char_digit)
qed

lemma first_split: "c \<notin> set xs \<Longrightarrow> first (split c (xs @ c # ys)) = xs"
  by (induction xs) (auto split: list.splits)

lemma pad_not_T: "CHR ''T'' \<notin> set (pad w n)"
proof (induction w arbitrary: n)
  case 0
  show ?case by simp
next
  case (Suc w)
  have "digit n \<noteq> CHR ''T''" by (rule digit_not_T)
  then show ?case using Suc by auto
qed

lemma pad2: "pad 2 n = [digit (n div 10), digit n]"
  by (simp add: numeral_2_eq_2)

lemma pad4: "pad 4 n = [digit (n div 1000), digit (n div 100), digit (n div 10), digit n]"
proof -
  have four: "(4::nat) = Suc (Suc (Suc (Suc 0)))" by simp
  have "pad 4 n = pad (Suc (Suc (Suc (Suc 0)))) n" by (simp only: four)
  also have "\<dots> = [digit (n div 10 div 10 div 10), digit (n div 10 div 10), digit (n div 10), digit n]" by simp
  also have "n div 10 div 10 = n div 100" by (simp only: div_mult2_eq [symmetric]) simp
  also have "n div 100 div 10 = n div 1000" by (simp only: div_mult2_eq [symmetric]) simp
  finally show ?thesis .
qed

lemma day_part: "first (split (CHR ''T'') (toISOString d)) =
   (if year d \<le> 9999 then pad 4 (year d) else ''+'' @ pad 6 (year d)) @ ''-'' @ pad 2 (month d) @ ''-'' @ pad 2 (day d)"
proof -
  let ?p = "(if year d \<le> 9999 then pad 4 (year d) else ''+'' @ pad 6 (year d)) @ ''-'' @ pad 2 (month d) @ ''-'' @ pad 2 (day d)"
  let ?q = "pad 2 (hours d) @ '':'' @ pad 2 (minutes d) @ '':'' @ pad 2 (seconds d)
     @ ''.'' @ pad 3 (millis d) @ ''Z''"
  have notin: "CHR ''T'' \<notin> set ?p" by (simp add: pad_not_T)
  have "toISOString d = ?p @ CHR ''T'' # ?q" by (simp add: toISOString_def)
  then show ?thesis using first_split [OF notin, of ?q] by simp
qed

lemma filename_shape: "wellFormed now \<Longrightarrow> filename now = ''entreprises_'' @ pad 4 (year now) @ ''-'' @ pad 2 (month now) @ ''-'' @ pad 2 (day now) @ ''.csv''"
  by (simp add: filename_def day_part wellFormed_def)

lemma filename_matches: "wellFormed now \<Longrightarrow> matchesPattern (filename now)"
  by (simp add: filename_shape matchesPattern_def pad2 pad4 isDigit_digit)

lemma decimalFrom_append:
  "decimalFrom a (xs @ ys) = (case decimalFrom a xs of None \<Rightarrow> None | Some m \<Rightarrow> decimalFrom m ys)"
  by (induction xs arbitrary: a) auto

lemma decimalFrom_showNat: "decimalFrom 0 (showNat n) = Some n"
proof (induction n rule: showNat.induct)
  case (1 n)
  show ?case
  proof (cases "n < 10")
    case True
    then show ?thesis
      by (simp add: showNat.simps [of n] isDigit_digit of_char_digit)
  next
    case False
    with 1 have "decimalFrom 0 (showNat (n div 10)) = Some (n div 10)" by simp
    with False show ?thesis
      by (simp add: showNat.simps [of n] decimalFrom_append isDigit_digit of_char_digit)
  qed
qed

lemma showNat_not_Nil: "showNat n \<noteq> []"
  by (simp add: showNat.simps [of n])

lemma decimal_showNat: "decimal (showNat n) = Some n"
  by (simp add: decimal_def showNat_not_Nil decimalFrom_showNat)

subsection \<open>Decoding and encoding\<close>

lemma accepted1:
  "accepted lo hi (Suc 0) bs = Suc 0 \<Longrightarrow> \<exists>c1 r. bs = c1 # r \<and> inRange lo hi c1"
  by (cases bs) (auto split: if_splits)

lemma accepted2:
  "accepted lo hi (Suc (Suc 0)) bs = Suc (Suc 0) \<Longrightarrow>
     \<exists>c1 c2 r. bs = c1 # c2 # r \<and> inRange lo hi c1 \<and> inRange 0x80 0xBF c2"
  by (cases bs) (auto split: if_splits dest: accepted1)

lemma accepted3:
  "accepted lo hi (Suc (Suc (Suc 0))) bs = Suc (Suc (Suc 0)) \<Longrightarrow>
     \<exists>c1 c2 c3 r. bs = c1 # c2 # c3 # r \<and> inRange lo hi c1 \<and> inRange 0x80 0xBF c2 \<and>
       inRange 0x80 0xBF c3"
  by (cases bs) (auto split: if_splits dest: accepted2)

lemma div64: "z < 64 \<Longrightarrow> (a * 64 + z) div 64 = (a::nat)"
  by simp

lemma mod64: "z < 64 \<Longrightarrow> (a * 64 + z) mod 64 = (z::nat)"
  by simp

lemma encode_two:
  assumes "inRange 0xC2 0xDF b" and "inRange 0x80 0xBF c1"
  shows "utf8EncodeCp ((b - 0xC0) * 64 + (c1 - 0x80)) = [b, c1]"
proof -
  define x where "x = b - 0xC0"
  define y where "y = c1 - 0x80"
  have b: "b = 0xC0 + x" and x: "2 \<le> x" "x \<le> 31"
    using assms(1) by (auto simp: inRange_def x_def)
  have c: "c1 = 0x80 + y" and y: "y < 64"
    using assms(2) by (auto simp: inRange_def y_def)
  let ?cp = "x * 64 + y"
  have lo: "0x80 \<le> ?cp" using x by simp
  have hi: "?cp < 0x800" using x y by simp
  have d: "?cp div 64 = x" using y by simp
  have m: "?cp mod 64 = y" using y by simp
  have "utf8EncodeCp ?cp = [0xC0 + x, 0x80 + y]"
    using lo hi d m by (simp add: utf8EncodeCp_def inRange_def Let_def)
  then show ?thesis by (simp add: b c)
qed

lemma encode_three:
  assumes "inRange 0xE0 0xEF b" and "inRange (lowerBoundary b) (upperBoundary b) c1"
    and "inRange 0x80 0xBF c2"
  shows "utf8EncodeCp (((b - 0xE0) * 64 + (c1 - 0x80)) * 64 + (c2 - 0x80)) = [b, c1, c2]"
proof -
  define x where "x = b - 0xE0"
  define y where "y = c1 - 0x80"
  define z where "z = c2 - 0x80"
  have b: "b = 0xE0 + x" and x: "x \<le> 15"
    using assms(1) by (auto simp: inRange_def x_def)
  have c: "c1 = 0x80 + y" and y: "y < 64"
    and y0: "x = 0 \<Longrightarrow> 32 \<le> y" and y13: "x = 13 \<Longrightarrow> y < 32"
    using assms(2) b
    by (auto simp: inRange_def y_def lowerBoundary_def upperBoundary_def split: if_splits)
  have e: "c2 = 0x80 + z" and z: "z < 64"
    using assms(3) by (auto simp: inRange_def z_def)
  let ?cp = "(x * 64 + y) * 64 + z"
  have lo: "0x800 \<le> ?cp" using y0 by (cases "x = 0") auto
  have hi: "?cp < 0x10000" using x y z by simp
  have sur: "\<not> inRange 0xD800 0xDFFF ?cp"
  proof (cases "x = 13")
    case True
    with y13 z show ?thesis by (simp add: inRange_def)
  next
    case False
    then consider "x \<le> 12" | "14 \<le> x" by linarith
    then show ?thesis using y z by cases (simp_all add: inRange_def)
  qed
  have d1: "?cp div 4096 = x" using y z by simp
  have q1: "?cp div 64 = x * 64 + y" using z by (rule div64)
  have d2: "?cp div 64 mod 64 = y" unfolding q1 using y by (rule mod64)
  have m: "?cp mod 64 = z" using z by (rule mod64)
  have "utf8EncodeCp ?cp = [0xE0 + x, 0x80 + y, 0x80 + z]"
    using lo hi sur d1 d2 m by (simp add: utf8EncodeCp_def Let_def)
  then show ?thesis by (simp add: b c e)
qed

lemma encode_four:
  assumes "inRange 0xF0 0xF4 b" and "inRange (lowerBoundary b) (upperBoundary b) c1"
    and "inRange 0x80 0xBF c2" and "inRange 0x80 0xBF c3"
  shows "utf8EncodeCp ((((b - 0xF0) * 64 + (c1 - 0x80)) * 64 + (c2 - 0x80)) * 64 + (c3 - 0x80))
           = [b, c1, c2, c3]"
proof -
  define x where "x = b - 0xF0"
  define y where "y = c1 - 0x80"
  define z where "z = c2 - 0x80"
  define w where "w = c3 - 0x80"
  have b: "b = 0xF0 + x" and x: "x \<le> 4"
    using assms(1) by (auto simp: inRange_def x_def)
  have c: "c1 = 0x80 + y" and y: "y < 64"
    and y0: "x = 0 \<Longrightarrow> 16 \<le> y" and y4: "x = 4 \<Longrightarrow> y < 16"
    using assms(2) b
    by (auto simp: inRange_def y_def lowerBoundary_def upperBoundary_def split: if_splits)
  have e: "c2 = 0x80 + z" and z: "z < 64"
    using assms(3) by (auto simp: inRange_def z_def)
  have f: "c3 = 0x80 + w" and w: "w < 64"
    using assms(4) by (auto simp: inRange_def w_def)
  let ?cp = "((x * 64 + y) * 64 + z) * 64 + w"
  have lo: "0x10000 \<le> ?cp" using y0 by (cases "x = 0") auto
  have sur: "\<not> inRange 0xD800 0xDFFF ?cp" using lo by (simp add: inRange_def)
  have d1: "?cp div 262144 = x" using y z w by simp
  have q1: "?cp div 64 = (x * 64 + y) * 64 + z" using w by (rule div64)
  have "?cp div 4096 = ?cp div 64 div 64" by (simp only: div_mult2_eq [symmetric]) simp
  also have "\<dots> = x * 64 + y" unfolding q1 using z by (rule div64)
  finally have q2: "?cp div 4096 = x * 64 + y" .
  have d2: "?cp div 4096 mod 64 = y" unfolding q2 using y by (rule mod64)
  have d3: "?cp div 64 mod 64 = z" unfolding q1 using z by (rule mod64)
  have m: "?cp mod 64 = w" using w by (rule mod64)
  have "utf8EncodeCp ?cp = [0xF0 + x, 0x80 + y, 0x80 + z, 0x80 + w]"
    using lo sur d1 d2 d3 m by (simp add: utf8EncodeCp_def Let_def)
  then show ?thesis by (simp add: b c e f)
qed

lemma bytesNeeded_cases:
  "bytesNeeded b = Suc 0 \<longleftrightarrow> inRange 0xC2 0xDF b"
  "bytesNeeded b = 2 \<longleftrightarrow> inRange 0xE0 0xEF b"
  "bytesNeeded b = 3 \<longleftrightarrow> inRange 0xF0 0xF4 b"
  by (auto simp: bytesNeeded_def inRange_def)

lemma bytesNeeded_le: "bytesNeeded b \<le> 3"
  by (simp add: bytesNeeded_def)

lemma head_roundtrip:
  assumes "utf8Head b bs = (cp, k, True)"
  shows "utf8EncodeCp cp = b # take k bs"
proof (cases "b \<le> 0x7F")
  case True
  with assms show ?thesis by (auto simp: utf8Head_def utf8EncodeCp_def inRange_def)
next
  case False
  let ?n = "bytesNeeded b"
  let ?k = "accepted (lowerBoundary b) (upperBoundary b) ?n bs"
  from assms False have n0: "?n \<noteq> 0" and kn: "?k = ?n" and k: "k = ?n"
    and cp: "cp = foldl (\<lambda>a c. a * 64 + (c - 0x80)) (leadBits b) (take ?n bs)"
    by (auto simp: utf8Head_def Let_def split: if_splits)
  from n0 bytesNeeded_le [of b] consider "?n = Suc 0" | "?n = 2" | "?n = 3" by force
  then show ?thesis
  proof cases
    case 1
    then have r: "inRange 0xC2 0xDF b" by (simp add: bytesNeeded_cases)
    from kn 1 obtain c1 r1 where bs: "bs = c1 # r1"
      and c1: "inRange (lowerBoundary b) (upperBoundary b) c1"
      using accepted1 by metis
    from r have bd: "lowerBoundary b = 0x80" "upperBoundary b = 0xBF" "leadBits b = b - 0xC0"
      by (auto simp: lowerBoundary_def upperBoundary_def leadBits_def inRange_def)
    show ?thesis using encode_two [OF r, of c1] c1 by (simp add: cp k 1 bs bd)
  next
    case 2
    then have r: "inRange 0xE0 0xEF b" by (simp add: bytesNeeded_cases)
    from kn 2 have "accepted (lowerBoundary b) (upperBoundary b) (Suc (Suc 0)) bs = Suc (Suc 0)"
      by (simp add: numeral_2_eq_2)
    then obtain c1 c2 r2 where bs: "bs = c1 # c2 # r2"
      and c1: "inRange (lowerBoundary b) (upperBoundary b) c1" and c2: "inRange 0x80 0xBF c2"
      using accepted2 by metis
    from r have bd: "leadBits b = b - 0xE0"
      by (auto simp: leadBits_def inRange_def)
    show ?thesis using encode_three [OF r c1 c2] by (simp add: cp k 2 bs bd)
  next
    case 3
    then have r: "inRange 0xF0 0xF4 b" by (simp add: bytesNeeded_cases)
    from kn 3 have "accepted (lowerBoundary b) (upperBoundary b) (Suc (Suc (Suc 0))) bs
        = Suc (Suc (Suc 0))"
      by (simp add: numeral_3_eq_3)
    then obtain c1 c2 c3 r3 where bs: "bs = c1 # c2 # c3 # r3"
      and c1: "inRange (lowerBoundary b) (upperBoundary b) c1" and c2: "inRange 0x80 0xBF c2"
      and c3: "inRange 0x80 0xBF c3"
      using accepted3 by metis
    from r have bd: "leadBits b = b - 0xF0"
      by (auto simp: leadBits_def inRange_def)
    show ?thesis using encode_four [OF r c1 c2 c3] by (simp add: cp k 3 bs bd)
  qed
qed

lemma utf8Encode_Cons: "utf8Encode (cp # t) = utf8EncodeCp cp @ utf8Encode t"
  by (simp add: utf8Encode_def)

lemma utf8_roundtrip: "wellFormedUtf8 bs \<Longrightarrow> utf8Encode (utf8Decode bs) = bs"
proof (induction bs rule: utf8Decode.induct)
  case 1
  show ?case by (simp add: utf8Encode_def)
next
  case (2 b bs)
  obtain cp k good where h: "utf8Head b bs = (cp, k, good)" by (cases "utf8Head b bs") auto
  with "2.prems" have good: "good" and rest: "wellFormedUtf8 (drop k bs)" by simp_all
  from "2.IH" [OF h [symmetric] refl rest] have ih: "utf8Encode (utf8Decode (drop k bs)) = drop k bs" .
  from h good have "utf8EncodeCp cp = b # take k bs" by (simp add: head_roundtrip)
  with ih h show ?case by (simp add: utf8Encode_Cons)
qed

lemma utf8Decode_ascii: "b \<le> 0x7F \<Longrightarrow> utf8Decode (b # bs) = b # utf8Decode bs"
  by (simp add: utf8Head_def)

lemma responseText_BOM: "responseText (0xEF # 0xBB # 0xBF # bs) = utf8Decode bs"
  by (simp add: responseText_def hasBOM_def)

lemma wellFormedUtf8_BOM: "wellFormedUtf8 (0xEF # 0xBB # 0xBF # bs) = wellFormedUtf8 bs"
  by (simp add: utf8Head_def bytesNeeded_def inRange_def lowerBoundary_def upperBoundary_def
      Let_def numeral_2_eq_2)

lemma responseText_after_BOM:
  assumes "wellFormedUtf8 bs" and "hasBOM bs"
  shows "utf8Encode (responseText bs) = drop 3 bs"
proof -
  have "bs = take 3 bs @ drop 3 bs" by simp
  with assms(2) have bs: "bs = 0xEF # 0xBB # 0xBF # drop 3 bs" by (simp add: hasBOM_def)
  with assms(1) have "wellFormedUtf8 (drop 3 bs)" by (metis wellFormedUtf8_BOM)
  then have "utf8Encode (utf8Decode (drop 3 bs)) = drop 3 bs" by (rule utf8_roundtrip)
  with assms(2) show ?thesis by (simp add: responseText_def)
qed

lemma responseText_roundtrip:
  assumes "wellFormedUtf8 bs" and "\<not> hasBOM bs"
  shows "utf8Encode (responseText bs) = bs"
  using assms by (simp add: responseText_def utf8_roundtrip)

subsection \<open>Serialization and effects\<close>

lemma foldl_appendEntry:
  "foldl appendEntry acc fd =
     acc @ map (\<lambda>kv. (fst kv, toString (snd kv)))
             (filter (\<lambda>kv. snd kv \<noteq> Str [] \<and> snd kv \<noteq> Bool False) fd)"
  by (induction fd arbitrary: acc) (auto simp: appendEntry_def)

lemma submitData_filter:
  "submitData fd =
     map (\<lambda>kv. (fst kv, toString (snd kv)))
       (filter (\<lambda>kv. snd kv \<noteq> Str [] \<and> snd kv \<noteq> Bool False) fd)"
  by (simp add: submitData_def foldl_appendEntry)

lemma submitData_keys:
  "k \<in> set (map fst (submitData fd)) \<longleftrightarrow> (\<exists>v. (k, v) \<in> set fd \<and> v \<noteq> Str [] \<and> v \<noteq> Bool False)"
  by (force simp: submitData_filter)

lemma stringify_keys: "map fst (stringify fd) = keys fd"
  by (simp add: stringify_def keys_def)

lemma stringify_id: "stringify fd = fd"
  by (simp add: stringify_def)

lemma fetches_append: "fetches (xs @ ys) = fetches xs @ fetches ys"
  by (induction xs rule: fetches.induct) auto

lemma downloads_append: "downloads (xs @ ys) = downloads xs @ downloads ys"
  by (induction xs rule: downloads.induct) auto

lemma toasts_append: "toasts (xs @ ys) = toasts xs @ toasts ys"
  by (induction xs rule: toasts.induct) auto

lemma fetches_downloadCSV: "fetches (downloadCSV d f) = []"
  by (simp add: downloadCSV_def Let_def)

lemma downloads_downloadCSV: "downloads (downloadCSV d f) = [(f, utf8Encode d)]"
  by (simp add: downloadCSV_def Let_def blobBytes_def)

lemma toasts_downloadCSV: "toasts (downloadCSV d f) = []"
  by (simp add: downloadCSV_def Let_def)

lemma fetches_settle: "fetches (effects (submitSettle now out s)) = fetches (effects s)"
  by (auto simp: submitSettle_def tryBlock_def catchBlock_def fetches_append fetches_downloadCSV
      Let_def split: outcome.splits bodyRead.splits)

lemma submitStart_fields:
  "isLoading (submitStart mk s) = True"
  "formData (submitStart mk s) = formData s"
  "pending (submitStart mk s) = pending s @ [mk (formData s)]"
  "effects (submitStart mk s) = effects s @ [Fetch (mk (formData s))]"
  by (simp_all add: submitStart_def Let_def)

lemma submitSettle_fields:
  "isLoading (submitSettle now out s) = False"
  "formData (submitSettle now out s) = formData s"
  "pending (submitSettle now out s) = tl (pending s)"
  by (simp_all add: submitSettle_def split: prod.splits)

lemma settle_failure:
  assumes "tryBlock now out = ([], Inl e)"
  shows "effects (submitSettle now out s) = effects s @ catchBlock e"
  using assms by (simp add: submitSettle_def)

lemma settle_success:
  assumes "ok status"
  shows "effects (submitSettle now (Response status (Bytes bs)) s) =
           effects s @ downloadCSV (responseText bs) (filename now)
             @ [Toast (successToast (filename now))]"
  using assms by (simp add: submitSettle_def tryBlock_def Let_def)

subsection \<open>The machine\<close>

lemma oneRequest_dispatch: "oneRequest s \<Longrightarrow> oneRequest (dispatch mk ev s)"
proof (cases ev)
  case (Change field v)
  assume "oneRequest s"
  with Change show ?thesis by (simp add: dispatch_def oneRequest_def)
next
  case SubmitClick
  assume "oneRequest s"
  with SubmitClick show ?thesis
    by (auto simp: dispatch_def oneRequest_def submitDisabled_def submitStart_fields)
next
  case (Settle now out)
  assume inv: "oneRequest s"
  then have "tl (pending s) = []" by (cases "pending s") (auto simp: oneRequest_def)
  with Settle show ?thesis by (simp add: dispatch_def oneRequest_def submitSettle_fields)
qed

lemma oneRequest_run: "oneRequest s \<Longrightarrow> run off mk evs s = Some s' \<Longrightarrow> oneRequest s'"
proof (induction evs arbitrary: s)
  case Nil
  then show ?case by simp
next
  case (Cons ev evs)
  from Cons.prems have "run off mk evs (dispatch mk ev s) = Some s'"
    by (simp split: if_splits)
  moreover have "oneRequest (dispatch mk ev s)" using Cons.prems(1) by (rule oneRequest_dispatch)
  ultimately show ?case by (rule Cons.IH [rotated])
qed

lemma oneRequest_initial: "oneRequest initialForm" "oneRequest initialForm_json"
  by (simp_all add: oneRequest_def initialForm_def initialForm_json_def)

lemma click_while_loading: "isLoading s \<Longrightarrow> dispatch mk SubmitClick s = s"
  by (simp add: dispatch_def submitDisabled_def)

lemma click_then_settle:
  assumes "\<not> isLoading s"
  shows "dispatch scrapeRequest (Settle now out) (dispatch scrapeRequest SubmitClick s)
           = handleSubmit now out s"
    and "dispatch scrapeRequest_json (Settle now out) (dispatch scrapeRequest_json SubmitClick s)
           = handleSubmit_json now out s"
  using assms
  by (simp_all add: dispatch_def submitDisabled_def handleSubmit_def handleSubmit_json_def)

lemma offers_json_maxResults:
  "offers_json ''maxResults'' v \<Longrightarrow> \<exists>x. v = Str x \<and> x \<in> set allowedMaxResults"
  by (cases v) (simp_all add: offers_json_def allowedMaxResults_def)

lemma maxResultsAllowed_dispatch:
  assumes "maxResultsAllowed s" and "occurs offers_json ev s"
  shows "maxResultsAllowed (dispatch scrapeRequest_json ev s)"
proof (cases ev)
  case (Change field v)
  show ?thesis
  proof (cases "field = ''maxResults''")
    case True
    with assms(2) Change have "offers_json ''maxResults'' v" by (simp add: occurs_def)
    then obtain x where "v = Str x" "x \<in> set allowedMaxResults"
      using offers_json_maxResults by blast
    with assms(1) Change True show ?thesis
      by (simp add: maxResultsAllowed_def dispatch_def handleInputChange_def get_put_same)
  next
    case False
    then have "get (put field v (formData s)) ''maxResults'' = get (formData s) ''maxResults''"
      by (simp add: get_put_other)
    with assms(1) Change show ?thesis
      by (simp add: maxResultsAllowed_def dispatch_def handleInputChange_def)
  qed
next
  case SubmitClick
  with assms(1) show ?thesis
    by (auto simp: maxResultsAllowed_def dispatch_def submitStart_fields fetches_append
        scrapeRequest_json_def stringify_id)
next
  case (Settle now out)
  with assms(1) show ?thesis
    by (simp add: maxResultsAllowed_def dispatch_def submitSettle_fields fetches_settle)
qed

lemma maxResultsAllowed_run:
  "maxResultsAllowed s \<Longrightarrow> run offers_json scrapeRequest_json evs s = Some s' \<Longrightarrow>
   maxResultsAllowed s'"
proof (induction evs arbitrary: s)
  case Nil
  then show ?case by simp
next
  case (Cons ev evs)
  from Cons.prems(2) have occ: "occurs offers_json ev s"
    and rest: "run offers_json scrapeRequest_json evs (dispatch scrapeRequest_json ev s) = Some s'"
    by (simp_all split: if_splits)
  from Cons.prems(1) occ have "maxResultsAllowed (dispatch scrapeRequest_json ev s)"
    by (rule maxResultsAllowed_dispatch)
  then show ?case using rest by (rule Cons.IH)
qed

lemma maxResultsAllowed_initial: "maxResultsAllowed initialForm_json"
  by (simp add: maxResultsAllowed_def initialForm_json_def initialFormData_json_def
      allowedMaxResults_def)

subsection \<open>Failure and success of the request\<close>

lemma handleSubmit_fetches:
  "fetches (effects (handleSubmit now out s)) = fetches (effects s) @ [scrapeRequest (formData s)]"
  "fetches (effects (handleSubmit_json now out s)) =
     fetches (effects s) @ [scrapeRequest_json (formData s)]"
  by (simp_all add: handleSubmit_def handleSubmit_json_def fetches_settle submitStart_fields
      fetches_append)

lemma catchBlock_lists:
  "downloads (catchBlock e) = []" "toasts (catchBlock e) = [errorToast]"
  by (simp_all add: catchBlock_def)

lemma failure_effects:
  assumes "tryBlock now out = ([], Inl e)"
  shows "downloads (effects (submitSettle now out (submitStart mk s))) = downloads (effects s)"
    and "toasts (effects (submitSettle now out (submitStart mk s))) = toasts (effects s) @ [errorToast]"
  by (simp_all add: settle_failure [OF assms] submitStart_fields downloads_append toasts_append
      catchBlock_lists)

lemma tryBlock_status:
  "\<not> ok status \<Longrightarrow>
     tryBlock now (Response status txt) = ([], Inl (Error (''Erreur HTTP: '' @ showNat status)))"
  by (simp add: tryBlock_def)

lemma tryBlock_rejected: "tryBlock now (Rejected e) = ([], Inl e)"
  by (simp add: tryBlock_def)

lemma tryBlock_text_failed:
  "ok status \<Longrightarrow> tryBlock now (Response status (Unreadable e)) = ([], Inl e)"
  by (simp add: tryBlock_def)

lemma success_downloads:
  assumes "ok status"
  shows "downloads (effects (submitSettle now (Response status (Bytes bs)) (submitStart mk s)))
           = downloads (effects s) @ [(filename now, utf8Encode (responseText bs))]"
  by (simp add: settle_success [OF assms] submitStart_fields downloads_append
      downloads_downloadCSV)

lemma utf8EncodeCp_ascii: "c \<le> 0x7F \<Longrightarrow> utf8EncodeCp c = [c]"
  by (simp add: utf8EncodeCp_def inRange_def)

lemma utf8Decode_lone_lead: "utf8Decode [0xE9] = [0xFFFD]"
  by (simp add: utf8Head_def bytesNeeded_def inRange_def numeral_2_eq_2)

lemma utf8EncodeCp_replacement: "utf8EncodeCp 0xFFFD = [0xEF, 0xBF, 0xBD]"
  by (simp add: utf8EncodeCp_def inRange_def)

lemma filename_sample:
  "filename \<lparr>year = 2026, month = 11, day = 2, hours = 14, minutes = 28, seconds = 0, millis = 0\<rparr>
     = ''entreprises_2026-11-02.csv''"
proof -
  have wf: "wellFormed \<lparr>year = 2026, month = 11, day = 2, hours = 14, minutes = 28, seconds = 0, millis = 0\<rparr>"
    by (simp add: wellFormed_def)
  have y: "pad 4 2026 = ''2026''" by code_simp
  have m: "pad 2 11 = ''11''" by code_simp
  have d: "pad 2 2 = ''02''" by code_simp
  show ?thesis using filename_shape [OF wf] y m d by simp
qed

section \<open>The claims\<close>

subsection \<open>C1: which fields are serialized\<close>

text \<open>
  C1, as amended. In the first file a field is in the body of the request exactly when its
  value is neither the empty string nor \<open>false\<close>: a field that still holds a non-empty
  default is sent. In the second file every field of the criteria is in the body, whatever
  its value.
\<close>

theorem submit_sends_nonempty_fields:
  "(k \<in> set (bodyKeys (body (last (fetches (effects (handleSubmit now out s)))))) \<longleftrightarrow>
      (\<exists>v. (k, v) \<in> set (formData s) \<and> v \<noteq> Str [] \<and> v \<noteq> Bool False)) \<and>
   bodyKeys (body (last (fetches (effects (handleSubmit_json now out s))))) = keys (formData s)"
  using submitData_keys [of k "formData s"]
  by (simp add: handleSubmit_fetches scrapeRequest_def scrapeRequest_json_def stringify_keys)

text \<open>C1, an instance: \<open>statut\<close> of the initial criteria is in the body.\<close>

theorem submit_sends_nonempty_fields_witness:
  "''statut'' \<in> set (bodyKeys (body (last (fetches (effects
      (handleSubmit \<lparr>year = 2026, month = 11, day = 2, hours = 14, minutes = 28, seconds = 0,
         millis = 0\<rparr> (Response 200 (Bytes [97, 44, 98])) initialForm))))))"
  using submit_sends_nonempty_fields [of "''statut''"
      "\<lparr>year = 2026, month = 11, day = 2, hours = 14, minutes = 28, seconds = 0, millis = 0\<rparr>"
      "Response 200 (Bytes [97, 44, 98])" initialForm]
  by (simp add: initialForm_def initialFormData_def)

text \<open>
  C1 as stated fails: \<open>nombreMax\<close> of the initial criteria equals its default \<open>100\<close> and
  is in the body of the request of the first file.
\<close>

theorem default_field_is_sent:
  "get (formData initialForm) ''nombreMax'' = Some (Str ''100'') \<and>
   sentValue (body (last (fetches (effects
      (handleSubmit \<lparr>year = 2026, month = 11, day = 2, hours = 14, minutes = 28, seconds = 0,
         millis = 0\<rparr> (Response 200 (Bytes [97, 44, 98])) initialForm))))) ''nombreMax''
     = Some (Str ''100'')"
  by (simp add: handleSubmit_fetches scrapeRequest_def submitData_filter initialForm_def
      initialFormData_def)

subsection \<open>C2: the payload of the default criteria\<close>

text \<open>
  C2, as amended. Submitting the initial criteria, the first file sends exactly
  \<open>nombreMax=100\<close> and \<open>statut=active\<close> (the checkbox, which is \<open>false\<close>, is left out);
  the second file sends all ten fields, the empty ones included.
\<close>

theorem default_criteria_payload:
  "fetches (effects (handleSubmit now out initialForm)) =
     [\<lparr>url = ''/scrape'', httpMethod = ''POST'', headers = [],
       body = Multipart [(''nombreMax'', ''100''), (''statut'', ''active'')]\<rparr>] \<and>
   fetches (effects (handleSubmit_json now out initialForm_json)) =
     [\<lparr>url = ''/scrape'', httpMethod = ''POST'',
       headers = [(''Content-Type'', ''application/json'')],
       body = Json [(''location'', Str ''''), (''searchTerms'', Str ''''),
                    (''maxResults'', Str ''100''), (''fiberEligibility'', Str ''already-fiber''),
                    (''nafCodes'', Str ''''), (''legalForms'', Str ''''),
                    (''employeeSize'', Str ''all''), (''creationYearMin'', Str ''''),
                    (''creationYearMax'', Str ''''), (''excludeFranchises'', Str ''no'')]\<rparr>]"
  by (simp add: handleSubmit_fetches scrapeRequest_def scrapeRequest_json_def submitData_filter
      stringify_id initialForm_def initialForm_json_def initialFormData_def
      initialFormData_json_def)

text \<open>
  C2 as stated fails: \<open>location\<close> of the initial criteria of the second file is empty and
  is in the body of the request.
\<close>

theorem empty_field_is_sent_json:
  "get (formData initialForm_json) ''location'' = Some (Str '''') \<and>
   sentValue (body (last (fetches (effects
      (handleSubmit_json \<lparr>year = 2026, month = 11, day = 2, hours = 14, minutes = 28,
         seconds = 0, millis = 0\<rparr> (Response 200 (Bytes [97, 44, 98])) initialForm_json)))))
      ''location'' = Some (Str '''')"
  by (simp add: handleSubmit_fetches scrapeRequest_json_def stringify_id initialForm_json_def
      initialFormData_json_def)

subsection \<open>C3: failures are reported\<close>

text \<open>
  C3. When the status of the response is outside 200..299, the \<open>try\<close> block throws an
  \<open>Error\<close> whose message ends with the status in decimal (which reads back as the
  status), nothing is downloaded, and the error toast is shown. A rejected \<open>fetch\<close> and a
  rejected \<open>response.text()\<close> are caught in the same way: no download, the error toast.
  The error toast is the notification titled \<open>Erreur\<close>, of the \<open>destructive\<close> variant,
  that says that an error occurred during the search and asks to try again.
\<close>

theorem failure_is_reported:
  assumes "\<not> ok status"
  shows
    "errorToast =
       \<lparr>title = ''Erreur'',
        description = ''Une erreur est survenue lors de la recherche. Veuillez r''
          @ [char_of (233::nat)] @ ''essayer.'',
        className = None, variant = Some ''destructive''\<rparr> \<and>
     tryBlock now (Response status txt) = ([], Inl (Error (''Erreur HTTP: '' @ showNat status))) \<and>
     decimal (showNat status) = Some status \<and>
     downloads (effects (handleSubmit now (Response status txt) s)) = downloads (effects s) \<and>
     toasts (effects (handleSubmit now (Response status txt) s)) = toasts (effects s) @ [errorToast] \<and>
     downloads (effects (handleSubmit_json now (Response status txt) s)) = downloads (effects s) \<and>
     toasts (effects (handleSubmit_json now (Response status txt) s))
       = toasts (effects s) @ [errorToast] \<and>
     tryBlock now (Rejected e) = ([], Inl e) \<and>
     downloads (effects (handleSubmit now (Rejected e) s)) = downloads (effects s) \<and>
     toasts (effects (handleSubmit now (Rejected e) s)) = toasts (effects s) @ [errorToast] \<and>
     downloads (effects (handleSubmit_json now (Rejected e) s)) = downloads (effects s) \<and>
     toasts (effects (handleSubmit_json now (Rejected e) s)) = toasts (effects s) @ [errorToast] \<and>
     (ok st \<longrightarrow>
        tryBlock now (Response st (Unreadable e)) = ([], Inl e) \<and>
        downloads (effects (handleSubmit now (Response st (Unreadable e)) s))
          = downloads (effects s) \<and>
        toasts (effects (handleSubmit now (Response st (Unreadable e)) s))
          = toasts (effects s) @ [errorToast] \<and>
        downloads (effects (handleSubmit_json now (Response st (Unreadable e)) s))
          = downloads (effects s) \<and>
        toasts (effects (handleSubmit_json now (Response st (Unreadable e)) s))
          = toasts (effects s) @ [errorToast])"
proof -
  have http: "tryBlock now (Response status txt)
      = ([], Inl (Error (''Erreur HTTP: '' @ showNat status)))"
    using assms by (rule tryBlock_status)
  have net: "tryBlock now (Rejected e) = ([], Inl e)"
    by (rule tryBlock_rejected)
  have tf: "downloads (effects (submitSettle now (Response st (Unreadable e)) (submitStart mk s)))
        = downloads (effects s) \<and>
      toasts (effects (submitSettle now (Response st (Unreadable e)) (submitStart mk s)))
        = toasts (effects s) @ [errorToast]" if "ok st" for mk
    using failure_effects [OF tryBlock_text_failed [OF that]] by simp
  show ?thesis
    unfolding handleSubmit_def handleSubmit_json_def
    by (simp add: http net failure_effects [OF http] failure_effects [OF net] decimal_showNat
        tryBlock_text_failed tf errorToast_def)
qed

text \<open>C3, an instance: status 404, a failed \<open>fetch\<close>, and a body that cannot be read.\<close>

theorem failure_is_reported_witness:
  "\<not> ok 404 \<and>
   tryBlock \<lparr>year = 2026, month = 11, day = 2, hours = 14, minutes = 28, seconds = 0, millis = 0\<rparr>
     (Response 404 (Bytes [78, 111])) = ([], Inl (Error ''Erreur HTTP: 404'')) \<and>
   downloads (effects (handleSubmit
     \<lparr>year = 2026, month = 11, day = 2, hours = 14, minutes = 28, seconds = 0, millis = 0\<rparr>
     (Response 404 (Bytes [78, 111])) initialForm)) = [] \<and>
   toasts (effects (handleSubmit
     \<lparr>year = 2026, month = 11, day = 2, hours = 14, minutes = 28, seconds = 0, millis = 0\<rparr>
     (Response 404 (Bytes [78, 111])) initialForm))
     = [\<lparr>title = ''Erreur'',
        description = ''Une erreur est survenue lors de la recherche. Veuillez r''
          @ [char_of (233::nat)] @ ''essayer.'',
        className = None, variant = Some ''destructive''\<rparr>] \<and>
   toasts (effects (handleSubmit
     \<lparr>year = 2026, month = 11, day = 2, hours = 14, minutes = 28, seconds = 0, millis = 0\<rparr>
     (Rejected (TypeError ''Failed to fetch'')) initialForm))
     = [\<lparr>title = ''Erreur'',
        description = ''Une erreur est survenue lors de la recherche. Veuillez r''
          @ [char_of (233::nat)] @ ''essayer.'',
        className = None, variant = Some ''destructive''\<rparr>] \<and>
   ok 200 \<and>
   toasts (effects (handleSubmit
     \<lparr>year = 2026, month = 11, day = 2, hours = 14, minutes = 28, seconds = 0, millis = 0\<rparr>
     (Response 200 (Unreadable (TypeError ''Failed to fetch''))) initialForm))
     = [\<lparr>title = ''Erreur'',
        description = ''Une erreur est survenue lors de la recherche. Veuillez r''
          @ [char_of (233::nat)] @ ''essayer.'',
        className = None, variant = Some ''destructive''\<rparr>]"
proof -
  have h: "\<not> ok 404" by (simp add: ok_def)
  have h2: "ok 200" by (simp add: ok_def)
  have sh: "showNat 404 = ''404''" by code_simp
  from failure_is_reported [OF h,
      of "\<lparr>year = 2026, month = 11, day = 2, hours = 14, minutes = 28, seconds = 0, millis = 0\<rparr>"
         "Bytes [78, 111]" initialForm "TypeError ''Failed to fetch''" 200] h h2 sh
  show ?thesis by (simp add: initialForm_def)
qed

subsection \<open>C4: the downloaded file\<close>

text \<open>
  C4, as amended. On a response with a status in 200..299 whose body can be read,
  exactly one file is saved. Its name is \<open>entreprises_YYYY-MM-DD.csv\<close> with the year,
  month and day of the clock in UTC, as long as the year has four digits. Its content is
  the UTF-8 encoding of the text \<open>response.text()\<close> decoded from the body: the bytes of
  the body when the body is well-formed UTF-8 with no byte-order mark in front, and the
  bytes after the mark when it is well-formed UTF-8 with one.
\<close>

theorem download_name_and_content:
  assumes "wellFormed now" and "ok status"
  shows
    "downloads (effects (handleSubmit now (Response status (Bytes bs)) s))
       = downloads (effects s) @ [(filename now, utf8Encode (responseText bs))] \<and>
     downloads (effects (handleSubmit_json now (Response status (Bytes bs)) s))
       = downloads (effects s) @ [(filename now, utf8Encode (responseText bs))] \<and>
     filename now = ''entreprises_'' @ pad 4 (year now) @ ''-'' @ pad 2 (month now) @ ''-''
       @ pad 2 (day now) @ ''.csv'' \<and>
     matchesPattern (filename now) \<and>
     (wellFormedUtf8 bs \<and> \<not> hasBOM bs \<longrightarrow> utf8Encode (responseText bs) = bs) \<and>
     (wellFormedUtf8 bs \<and> hasBOM bs \<longrightarrow> utf8Encode (responseText bs) = drop 3 bs)"
  unfolding handleSubmit_def handleSubmit_json_def
  using filename_shape [OF assms(1)] filename_matches [OF assms(1)]
  by (simp add: success_downloads [OF assms(2)] responseText_roundtrip responseText_after_BOM)

text \<open>
  C4, two instances on the second of November 2026: the body \<open>a,b\<close>, line feed, \<open>1,2\<close>
  is saved as it is; of a body that starts with a byte-order mark the rest is saved.
\<close>

theorem download_name_and_content_witness:
  "wellFormed \<lparr>year = 2026, month = 11, day = 2, hours = 14, minutes = 28, seconds = 0, millis = 0\<rparr>
   \<and> ok 200 \<and> wellFormedUtf8 [97, 44, 98, 10, 49, 44, 50] \<and> \<not> hasBOM [97, 44, 98, 10, 49, 44, 50] \<and>
   downloads (effects (handleSubmit
     \<lparr>year = 2026, month = 11, day = 2, hours = 14, minutes = 28, seconds = 0, millis = 0\<rparr>
     (Response 200 (Bytes [97, 44, 98, 10, 49, 44, 50])) initialForm))
     = [(''entreprises_2026-11-02.csv'', [97, 44, 98, 10, 49, 44, 50])] \<and>
   wellFormedUtf8 [0xEF, 0xBB, 0xBF, 97, 44, 98] \<and> hasBOM [0xEF, 0xBB, 0xBF, 97, 44, 98] \<and>
   downloads (effects (handleSubmit_json
     \<lparr>year = 2026, month = 11, day = 2, hours = 14, minutes = 28, seconds = 0, millis = 0\<rparr>
     (Response 200 (Bytes [0xEF, 0xBB, 0xBF, 97, 44, 98])) initialForm_json))
     = [(''entreprises_2026-11-02.csv'', [97, 44, 98])]"
proof -
  let ?now = "\<lparr>year = 2026, month = 11, day = 2, hours = 14, minutes = 28, seconds = 0, millis = 0\<rparr>"
  let ?plain = "[97, 44, 98, 10, 49, 44, 50] :: byte list"
  let ?marked = "[0xEF, 0xBB, 0xBF, 97, 44, 98] :: byte list"
  have wf: "wellFormed ?now" by (simp add: wellFormed_def)
  have h: "ok 200" by (simp add: ok_def)
  have f: "filename ?now = ''entreprises_2026-11-02.csv''"
    by (rule filename_sample)
  have u1: "wellFormedUtf8 ?plain" by (simp add: utf8Head_def)
  have b1: "\<not> hasBOM ?plain" by (simp add: hasBOM_def)
  have "wellFormedUtf8 [97, 44, 98]" by (simp add: utf8Head_def)
  then have u2: "wellFormedUtf8 ?marked" by (simp only: wellFormedUtf8_BOM)
  have b2: "hasBOM ?marked" by (simp add: hasBOM_def)
  note t1 = download_name_and_content [OF wf h, of ?plain initialForm]
  note t2 = download_name_and_content [OF wf h, of ?marked initialForm_json]
  from t1 u1 b1 have r1: "utf8Encode (responseText ?plain) = ?plain" by blast
  from t2 u2 b2 have r2: "utf8Encode (responseText ?marked) = drop 3 ?marked" by blast
  from t1 have d1: "downloads (effects (handleSubmit ?now (Response 200 (Bytes ?plain)) initialForm))
      = downloads (effects initialForm) @ [(filename ?now, utf8Encode (responseText ?plain))]"
    by blast
  from t2 have d2: "downloads (effects (handleSubmit_json ?now (Response 200 (Bytes ?marked))
        initialForm_json))
      = downloads (effects initialForm_json)
          @ [(filename ?now, utf8Encode (responseText ?marked))]"
    by blast
  have i1: "downloads (effects initialForm) = []" by (simp add: initialForm_def)
  have i2: "downloads (effects initialForm_json) = []" by (simp add: initialForm_json_def)
  have dr: "drop 3 ?marked = [97, 44, 98]" by simp
  show ?thesis
    unfolding d1 d2 r1 r2 f i1 i2 dr using wf h u1 b1 u2 b2 by simp
qed

text \<open>
  C4 as stated fails: the file saved for a body that starts with a byte-order mark does
  not have the mark, and the file saved for the single byte E9 (a Latin-1 accented letter)
  holds the three bytes of U+FFFD. Neither content is the body.
\<close>

theorem body_bytes_are_not_kept:
  "ok 200 \<and>
   downloads (effects (handleSubmit
     \<lparr>year = 2026, month = 11, day = 2, hours = 14, minutes = 28, seconds = 0, millis = 0\<rparr>
     (Response 200 (Bytes [0xEF, 0xBB, 0xBF, 97])) initialForm))
     = [(''entreprises_2026-11-02.csv'', [97])] \<and>
   [97] \<noteq> [0xEF, 0xBB, 0xBF, (97::nat)] \<and>
   downloads (effects (handleSubmit
     \<lparr>year = 2026, month = 11, day = 2, hours = 14, minutes = 28, seconds = 0, millis = 0\<rparr>
     (Response 200 (Bytes [0xE9])) initialForm))
     = [(''entreprises_2026-11-02.csv'', [0xEF, 0xBF, 0xBD])] \<and>
   [0xEF, 0xBF, 0xBD] \<noteq> [(0xE9::nat)]"
proof -
  let ?now = "\<lparr>year = 2026, month = 11, day = 2, hours = 14, minutes = 28, seconds = 0, millis = 0\<rparr>"
  have h: "ok 200" by (simp add: ok_def)
  have f: "filename ?now = ''entreprises_2026-11-02.csv''"
    by (rule filename_sample)
  have e1: "utf8Encode (responseText [0xEF, 0xBB, 0xBF, 97]) = [97]"
    by (simp add: responseText_BOM utf8Head_def utf8Encode_def utf8EncodeCp_ascii)
  have e2: "utf8Encode (responseText [0xE9]) = [0xEF, 0xBF, 0xBD]"
    by (simp add: responseText_def hasBOM_def utf8Decode_lone_lead utf8Encode_def
        utf8EncodeCp_replacement del: utf8Decode.simps)
  have i1: "downloads (effects initialForm) = []" by (simp add: initialForm_def)
  have d1: "downloads (effects (handleSubmit ?now (Response 200 (Bytes [0xEF, 0xBB, 0xBF, 97]))
        initialForm)) = [(''entreprises_2026-11-02.csv'', [97])]"
    unfolding handleSubmit_def success_downloads [OF h] f e1 i1 by simp
  have d2: "downloads (effects (handleSubmit ?now (Response 200 (Bytes [0xE9])) initialForm))
      = [(''entreprises_2026-11-02.csv'', [0xEF, 0xBF, 0xBD])]"
    unfolding handleSubmit_def success_downloads [OF h] f e2 i1 by simp
  show ?thesis unfolding d1 d2 using h by simp
qed

subsection \<open>C5: one submission at a time\<close>

text \<open>
  C5. After any sequence of events on either form, at most one request is in flight, the
  busy flag is set exactly while one is, and while it is set the submit button is
  disabled and a click on it changes nothing.
\<close>

theorem one_submission_at_a_time:
  "(runForm evs = Some s \<longrightarrow>
      length (pending s) \<le> 1 \<and> (isLoading s \<longleftrightarrow> pending s \<noteq> []) \<and>
      (isLoading s \<longrightarrow> submitDisabled s \<and> dispatch scrapeRequest SubmitClick s = s)) \<and>
   (runForm_json evs2 = Some s2 \<longrightarrow>
      length (pending s2) \<le> 1 \<and> (isLoading s2 \<longleftrightarrow> pending s2 \<noteq> []) \<and>
      (isLoading s2 \<longrightarrow> submitDisabled s2 \<and> dispatch scrapeRequest_json SubmitClick s2 = s2))"
proof -
  have "oneRequest s" if "runForm evs = Some s"
    using oneRequest_initial(1) that unfolding runForm_def by (rule oneRequest_run)
  moreover have "oneRequest s2" if "runForm_json evs2 = Some s2"
    using oneRequest_initial(2) that unfolding runForm_json_def by (rule oneRequest_run)
  ultimately show ?thesis
    by (auto simp: oneRequest_def click_while_loading submitDisabled_def)
qed

text \<open>
  C5, an instance: three clicks with an edit in between send one request, on each form.
\<close>

theorem one_submission_at_a_time_witness:
  "runForm [SubmitClick, SubmitClick, Change ''ville'' (Str ''Paris''), SubmitClick]
     = Some (initialForm\<lparr>isLoading := True,
          formData := handleInputChange ''ville'' (Str ''Paris'') initialFormData,
          pending := [scrapeRequest initialFormData],
          effects := [Fetch (scrapeRequest initialFormData)]\<rparr>) \<and>
   runForm_json [SubmitClick, SubmitClick, Change ''location'' (Str ''Paris''), SubmitClick]
     = Some (initialForm_json\<lparr>isLoading := True,
          formData := handleInputChange ''location'' (Str ''Paris'') initialFormData_json,
          pending := [scrapeRequest_json initialFormData_json],
          effects := [Fetch (scrapeRequest_json initialFormData_json)]\<rparr>) \<and>
   dispatch scrapeRequest SubmitClick
     (initialForm\<lparr>isLoading := True,
          formData := handleInputChange ''ville'' (Str ''Paris'') initialFormData,
          pending := [scrapeRequest initialFormData],
          effects := [Fetch (scrapeRequest initialFormData)]\<rparr>)
     = initialForm\<lparr>isLoading := True,
          formData := handleInputChange ''ville'' (Str ''Paris'') initialFormData,
          pending := [scrapeRequest initialFormData],
          effects := [Fetch (scrapeRequest initialFormData)]\<rparr>"
proof -
  let ?s = "initialForm\<lparr>isLoading := True,
          formData := handleInputChange ''ville'' (Str ''Paris'') initialFormData,
          pending := [scrapeRequest initialFormData],
          effects := [Fetch (scrapeRequest initialFormData)]\<rparr>"
  let ?s2 = "initialForm_json\<lparr>isLoading := True,
          formData := handleInputChange ''location'' (Str ''Paris'') initialFormData_json,
          pending := [scrapeRequest_json initialFormData_json],
          effects := [Fetch (scrapeRequest_json initialFormData_json)]\<rparr>"
  have r: "runForm [SubmitClick, SubmitClick, Change ''ville'' (Str ''Paris''), SubmitClick]
      = Some ?s"
    by (simp add: runForm_def occurs_def dispatch_def submitDisabled_def submitStart_def
        initialForm_def offers_def Let_def)
  have r2: "runForm_json [SubmitClick, SubmitClick, Change ''location'' (Str ''Paris''),
      SubmitClick] = Some ?s2"
    by (simp add: runForm_json_def occurs_def dispatch_def submitDisabled_def submitStart_def
        initialForm_json_def offers_json_def Let_def)
  from one_submission_at_a_time
    [of "[SubmitClick, SubmitClick, Change ''ville'' (Str ''Paris''), SubmitClick]" ?s
        "[SubmitClick, SubmitClick, Change ''location'' (Str ''Paris''), SubmitClick]" ?s2]
    r r2
  show ?thesis by simp
qed

subsection \<open>C6: the maximum number of results\<close>

text \<open>
  C6, as amended. In the second file, where the field is set by a select with the items
  50, 100, 200 and 500 and starts at 100, the criteria hold and every request carries one
  of these four values, after any sequence of events. The first file sets the field from a
  number input and sends whatever number was typed.
\<close>

theorem max_results_from_select:
  assumes "runForm_json evs = Some s"
  shows
    "(\<exists>v. get (formData s) ''maxResults'' = Some (Str v) \<and> v \<in> set allowedMaxResults) \<and>
     (\<forall>r \<in> set (fetches (effects s)).
        \<exists>v. sentValue (body r) ''maxResults'' = Some (Str v) \<and> v \<in> set allowedMaxResults)"
proof -
  have "maxResultsAllowed s"
    using maxResultsAllowed_initial assms unfolding runForm_json_def
    by (rule maxResultsAllowed_run)
  then show ?thesis by (simp add: maxResultsAllowed_def)
qed

text \<open>C6, an instance: choosing 500 and submitting.\<close>

theorem max_results_from_select_witness:
  "runForm_json [Change ''maxResults'' (Str ''500''), SubmitClick]
     = Some (initialForm_json\<lparr>isLoading := True,
          formData := handleInputChange ''maxResults'' (Str ''500'') initialFormData_json,
          pending := [scrapeRequest_json
             (handleInputChange ''maxResults'' (Str ''500'') initialFormData_json)],
          effects := [Fetch (scrapeRequest_json
             (handleInputChange ''maxResults'' (Str ''500'') initialFormData_json))]\<rparr>) \<and>
   sentValue (body (scrapeRequest_json
       (handleInputChange ''maxResults'' (Str ''500'') initialFormData_json))) ''maxResults''
     = Some (Str ''500'') \<and>
   ''500'' \<in> set allowedMaxResults"
proof -
  let ?fd = "handleInputChange ''maxResults'' (Str ''500'') initialFormData_json"
  let ?s = "initialForm_json\<lparr>isLoading := True, formData := ?fd,
          pending := [scrapeRequest_json ?fd], effects := [Fetch (scrapeRequest_json ?fd)]\<rparr>"
  have r: "runForm_json [Change ''maxResults'' (Str ''500''), SubmitClick] = Some ?s"
    by (simp add: runForm_json_def occurs_def dispatch_def submitDisabled_def submitStart_def
        initialForm_json_def offers_json_def Let_def)
  have v: "sentValue (body (scrapeRequest_json ?fd)) ''maxResults'' = Some (Str ''500'')"
    by (simp add: scrapeRequest_json_def stringify_id handleInputChange_def
        initialFormData_json_def)
  from max_results_from_select [OF r] r v show ?thesis
    by (simp add: allowedMaxResults_def)
qed

text \<open>
  C6 as stated fails: on the first form, typing 7 into the number input and submitting
  sends \<open>nombreMax=7\<close>.
\<close>

theorem free_max_results_is_sent:
  "numberValue ''7'' \<and> ''7'' \<notin> set allowedMaxResults \<and>
   map_option (\<lambda>s. map (\<lambda>r. sentValue (body r) ''nombreMax'') (fetches (effects s)))
     (runForm [Change ''nombreMax'' (Str ''7''), SubmitClick]) = Some [Some (Str ''7'')]"
  by (simp add: runForm_def occurs_def dispatch_def submitDisabled_def submitStart_def
      initialForm_def offers_def Let_def numberValue_def validFloat_def dropSign_def
      isDigit_def allowedMaxResults_def handleInputChange_def initialFormData_def
      scrapeRequest_def submitData_filter)

subsection \<open>C7: reversed bounds are not rejected\<close>

text \<open>
  C7. There are criteria with a lower bound above the upper bound that the form sends as
  they are: creation years 2024 and 2020 on the second form, revenues 1000 and 100 on the
  first.
\<close>

theorem reversed_bounds_are_sent:
  "(\<exists>evs s r lo hi a b.
      runForm_json evs = Some s \<and> fetches (effects s) = [r] \<and>
      sentValue (body r) ''creationYearMin'' = Some (Str lo) \<and>
      sentValue (body r) ''creationYearMax'' = Some (Str hi) \<and>
      decimal lo = Some a \<and> decimal hi = Some b \<and> b < a) \<and>
   (\<exists>evs s r lo hi a b.
      runForm evs = Some s \<and> fetches (effects s) = [r] \<and>
      sentValue (body r) ''caMinimum'' = Some (Str lo) \<and>
      sentValue (body r) ''caMaximum'' = Some (Str hi) \<and>
      decimal lo = Some a \<and> decimal hi = Some b \<and> b < a)"
proof
  let ?evs = "[Change ''creationYearMin'' (Str ''2024''), Change ''creationYearMax'' (Str ''2020''),
              SubmitClick]"
  let ?fd = "handleInputChange ''creationYearMax'' (Str ''2020'')
              (handleInputChange ''creationYearMin'' (Str ''2024'') initialFormData_json)"
  let ?r = "scrapeRequest_json ?fd"
  let ?s = "initialForm_json\<lparr>isLoading := True, formData := ?fd, pending := [?r],
              effects := [Fetch ?r]\<rparr>"
  have nv: "numberValue ''2024''" "numberValue ''2020''"
    by (simp_all add: numberValue_def validFloat_def dropSign_def isDigit_def)
  have "runForm_json ?evs = Some ?s"
    by (simp add: runForm_json_def occurs_def dispatch_def submitDisabled_def submitStart_def
        initialForm_json_def offers_json_def Let_def nv)
  moreover have "fetches (effects ?s) = [?r]" by simp
  moreover have "sentValue (body ?r) ''creationYearMin'' = Some (Str ''2024'')"
    "sentValue (body ?r) ''creationYearMax'' = Some (Str ''2020'')"
    by (simp_all add: scrapeRequest_json_def stringify_id handleInputChange_def
        initialFormData_json_def)
  moreover have "decimal ''2024'' = Some 2024" "decimal ''2020'' = Some 2020"
    by (simp_all add: decimal_def isDigit_def)
  moreover have "(2020::nat) < 2024" by simp
  ultimately show "\<exists>evs s r lo hi a b.
      runForm_json evs = Some s \<and> fetches (effects s) = [r] \<and>
      sentValue (body r) ''creationYearMin'' = Some (Str lo) \<and>
      sentValue (body r) ''creationYearMax'' = Some (Str hi) \<and>
      decimal lo = Some a \<and> decimal hi = Some b \<and> b < a"
    by blast
next
  let ?evs = "[Change ''caMinimum'' (Str ''1000''), Change ''caMaximum'' (Str ''100''),
              SubmitClick]"
  let ?fd = "handleInputChange ''caMaximum'' (Str ''100'')
              (handleInputChange ''caMinimum'' (Str ''1000'') initialFormData)"
  let ?r = "scrapeRequest ?fd"
  let ?s = "initialForm\<lparr>isLoading := True, formData := ?fd, pending := [?r],
              effects := [Fetch ?r]\<rparr>"
  have nv: "numberValue ''1000''" "numberValue ''100''"
    by (simp_all add: numberValue_def validFloat_def dropSign_def isDigit_def)
  have "runForm ?evs = Some ?s"
    by (simp add: runForm_def occurs_def dispatch_def submitDisabled_def submitStart_def
        initialForm_def offers_def Let_def nv)
  moreover have "fetches (effects ?s) = [?r]" by simp
  moreover have "sentValue (body ?r) ''caMinimum'' = Some (Str ''1000'')"
    "sentValue (body ?r) ''caMaximum'' = Some (Str ''100'')"
    by (simp_all add: scrapeRequest_def submitData_filter handleInputChange_def
        initialFormData_def)
  moreover have "decimal ''1000'' = Some 1000" "decimal ''100'' = Some 100"
    by (simp_all add: decimal_def isDigit_def)
  moreover have "(100::nat) < 1000" by simp
  ultimately show "\<exists>evs s r lo hi a b.
      runForm evs = Some s \<and> fetches (effects s) = [r] \<and>
      sentValue (body r) ''caMinimum'' = Some (Str lo) \<and>
      sentValue (body r) ''caMaximum'' = Some (Str hi) \<and>
      decimal lo = Some a \<and> decimal hi = Some b \<and> b < a"
    by blast
qed

subsection \<open>C8: the defaults\<close>

text \<open>
  C8. The component starts with the initial criteria, in which \<open>statut\<close> is
  \<open>active\<close> and \<open>exclureFranchises\<close> is \<open>false\<close> (first file), \<open>fiberEligibility\<close> is
  \<open>already-fiber\<close> and \<open>excludeFranchises\<close> is \<open>no\<close> (second file).
\<close>

theorem initial_defaults:
  "formData initialForm = initialFormData \<and>
   formData initialForm_json = initialFormData_json \<and>
   get initialFormData ''statut'' = Some (Str ''active'') \<and>
   get initialFormData ''exclureFranchises'' = Some (Bool False) \<and>
   get initialFormData_json ''fiberEligibility'' = Some (Str ''already-fiber'') \<and>
   get initialFormData_json ''excludeFranchises'' = Some (Str ''no'')"
  by (simp add: initialForm_def initialForm_json_def initialFormData_def initialFormData_json_def)

subsection \<open>C9: editing one field\<close>

text \<open>
  C9. \<open>handleInputChange\<close> gives the named field the new value and leaves the value of
  every other field as it was; when the field is one of the object's keys, the keys and
  their order stay the same.
\<close>

theorem handleInputChange_frame:
  "get (handleInputChange field v prev) field = Some v \<and>
   (\<forall>k. k \<noteq> field \<longrightarrow> get (handleInputChange field v prev) k = get prev k) \<and>
   (field \<in> set (keys prev) \<longrightarrow> keys (handleInputChange field v prev) = keys prev)"
  by (simp add: handleInputChange_def get_put_same get_put_other keys_put_present)

text \<open>C9, an instance: setting \<open>ville\<close> in the initial criteria.\<close>

theorem handleInputChange_frame_witness:
  "''ville'' \<in> set (keys initialFormData) \<and>
   get (handleInputChange ''ville'' (Str ''Paris'') initialFormData) ''ville'' = Some (Str ''Paris'') \<and>
   get (handleInputChange ''ville'' (Str ''Paris'') initialFormData) ''statut'' = Some (Str ''active'') \<and>
   keys (handleInputChange ''ville'' (Str ''Paris'') initialFormData) = keys initialFormData"
proof -
  have mem: "''ville'' \<in> set (keys initialFormData)"
    by (simp add: keys_def initialFormData_def)
  have old: "get initialFormData ''statut'' = Some (Str ''active'')"
    by (simp add: initialFormData_def)
  have ne: "''statut'' \<noteq> ''ville''" by simp
  from handleInputChange_frame [of "''ville''" "Str ''Paris''" initialFormData] mem old ne
  show ?thesis by simp
qed

subsection \<open>C10: after the submission\<close>

text \<open>
  C10. However the request settles, \<open>handleSubmit\<close> ends with the busy flag \<open>false\<close> and
  with the criteria it started with.
\<close>

theorem submit_resets_busy_flag:
  "isLoading (handleSubmit now out s) = False \<and>
   formData (handleSubmit now out s) = formData s \<and>
   isLoading (handleSubmit_json now out s) = False \<and>
   formData (handleSubmit_json now out s) = formData s \<and>
   isLoading (submitSettle now out s) = False \<and>
   formData (submitSettle now out s) = formData s"
  by (simp add: handleSubmit_def handleSubmit_json_def submitSettle_fields submitStart_fields)

end
